theory Spec2Isabelle
  imports Complex_Main "HOL-Library.Log_Nat"
begin

section \<open>Real-time order book monitor\<close>

text \<open>
  A shallow embedding of \<^verbatim>\<open>RealtimeOrderbookConfig\<close> and \<^verbatim>\<open>RealtimeOrderbook\<close> of
  \<^verbatim>\<open>scripts/realtime_orderbook.py\<close>.

  Numbers. The provider's prices and amounts are decimals and the script converts them with
  \<^verbatim>\<open>float(...)\<close> before rounding; every such number is an exact rational here, and
  the arithmetic of the script (\<open>+\<close>, \<open>-\<close>, \<open>*\<close>, \<open>/\<close>, comparisons) is the arithmetic of
  \<^typ>\<open>rat\<close>. Binary floating point representation error, infinities and NaN are outside
  the model.

  Effects. Methods that mutate \<^verbatim>\<open>self\<close> take the monitor's state and return the new
  one; a raised exception is a value; what the script writes through its logger is a list of
  log entries carried in the state. An entry stands for the text of one logger call (the
  full table, several lines, is one entry) and carries the data the text is rendered from.
  Exceptions are the instances of \<^verbatim>\<open>Exception\<close>, which is what \<^verbatim>\<open>on_tick\<close> names
  in its handler; interpreter signals such as \<^verbatim>\<open>KeyboardInterrupt\<close> are not modelled.
\<close>

subsection \<open>Python primitives used by the script\<close>

datatype exn = ZeroDivisionError | Raised string
  \<comment> \<open>instances of Python's \<^verbatim>\<open>Exception\<close>: the one the script's own arithmetic could
      raise, and any exception raised by an external collaborator (provider, logger)\<close>

definition py_truediv :: "rat \<Rightarrow> rat \<Rightarrow> exn + rat" where
  "py_truediv a b = (if b = 0 then Inl ZeroDivisionError else Inr (a / b))"

definition round_half_even :: "rat \<Rightarrow> int" where
  "round_half_even x =
     (let f = \<lfloor>x\<rfloor>; d = x - of_int f
      in if d < 1 / 2 then f
         else if 1 / 2 < d then f + 1
         else if even f then f else f + 1)"

definition py_round :: "rat \<Rightarrow> int \<Rightarrow> rat" where
  \<comment> \<open>\<^verbatim>\<open>round(x, ndigits)\<close>: nearest multiple of \<open>10\<^sup>-\<^sup>n\<close>, ties to the even one\<close>
  "py_round x n =
     (if 0 \<le> n then of_int (round_half_even (x * 10 ^ nat n)) / 10 ^ nat n
      else of_int (round_half_even (x / 10 ^ nat (- n))) * 10 ^ nat (- n))"

definition pow2 :: "int \<Rightarrow> rat" where
  "pow2 k = (if 0 \<le> k then 2 ^ nat k else 1 / 2 ^ nat (- k))"

definition binade :: "rat \<Rightarrow> int" where
  \<comment> \<open>for \<open>x \<noteq> 0\<close>, the exponent \<open>e\<close> with \<open>2\<^sup>e \<le> \<bar>x\<bar> < 2\<^sup>e\<^sup>+\<^sup>1\<close>\<close>
  "binade x =
     (let (p, q) = quotient_of x; k = bitlen \<bar>p\<bar> - bitlen q
      in if pow2 k \<le> \<bar>x\<bar> then k else k - 1)"

definition fl :: "rat \<Rightarrow> rat" where
  \<comment> \<open>the binary64 value nearest to \<open>x\<close>, ties to the even significand: 53 significant
      bits, exponents from \<open>-1022\<close> with gradual underflow. A Python \<^verbatim>\<open>float\<close> is its
      exact value; overflow to infinity is outside the model.\<close>
  "fl x =
     (if x = 0 then 0
      else (let e = max (binade x) (- 1022); u = pow2 (e - 52)
            in of_int (round_half_even (x / u)) * u))"

definition float_add :: "rat \<Rightarrow> rat \<Rightarrow> rat" where
  \<comment> \<open>\<^verbatim>\<open>a + b\<close> on two floats\<close>
  "float_add a b = fl (a + b)"

definition py_slice_to :: "int \<Rightarrow> 'a list \<Rightarrow> 'a list" where
  \<comment> \<open>\<^verbatim>\<open>xs[:d]\<close>: a negative bound counts from the end\<close>
  "py_slice_to d xs =
     (if 0 \<le> d then take (nat d) xs else take (length xs - nat (- d)) xs)"

subsection \<open>Configuration and data\<close>

record config =
  connector :: string
  trading_pair :: string
  orderbook_depth :: int
  connector_type :: "string option"
  compact_display :: bool
  min_volume_filter :: "rat option"
  price_precision :: int
  volume_precision :: int
  json_output :: bool
  csv_output :: bool
  spread_alert_threshold :: "rat option"
  volume_alert_threshold :: "rat option"

record row =
  \<comment> \<open>an \<^verbatim>\<open>OrderBookRow\<close> of the provider\<close>
  price :: rat
  amount :: rat

record level =
  \<comment> \<open>the dictionary with keys \<^verbatim>\<open>'price'\<close>, \<^verbatim>\<open>'volume'\<close>, \<^verbatim>\<open>'total'\<close>\<close>
  lv_price :: rat
  lv_volume :: rat
  lv_total :: rat

record orderbook_data =
  \<comment> \<open>the dictionary returned by \<^verbatim>\<open>process_orderbook\<close>\<close>
  data_timestamp :: nat
  data_connector :: string
  data_trading_pair :: string
  bids :: "level list"
  asks :: "level list"
  best_bid :: rat
  best_ask :: rat
  mid_price :: rat
  spread :: rat
  spread_percent :: rat
  total_bid_volume :: rat
  total_ask_volume :: rat
  data_update_count :: nat

subsection \<open>\<^verbatim>\<open>process_orderbook\<close>\<close>

definition make_level :: "config \<Rightarrow> row \<Rightarrow> level" where
  "make_level cfg r =
     \<lparr> lv_price = py_round (price r) (price_precision cfg),
       lv_volume = py_round (amount r) (volume_precision cfg),
       lv_total = py_round (price r * amount r) (volume_precision cfg) \<rparr>"

fun below_filter :: "rat option \<Rightarrow> rat \<Rightarrow> bool" where
  \<comment> \<open>\<^verbatim>\<open>self.config.min_volume_filter and bid.amount < self.config.min_volume_filter\<close>\<close>
  "below_filter None a = False"
| "below_filter (Some t) a = (t \<noteq> 0 \<and> a < t)"

fun process_rows :: "config \<Rightarrow> row list \<Rightarrow> level list" where
  \<comment> \<open>the body of the two \<^verbatim>\<open>for\<close> loops, over the sorted and sliced rows\<close>
  "process_rows cfg [] = []"
| "process_rows cfg (r # rs) =
     (if below_filter (min_volume_filter cfg) (amount r) then process_rows cfg rs
      else make_level cfg r # process_rows cfg rs)"

definition sorted_bids :: "row list \<Rightarrow> row list" where
  \<comment> \<open>\<^verbatim>\<open>sorted(bids.values(), key=lambda x: x.price, reverse=True)\<close>: stable, price descending\<close>
  "sorted_bids rs = sort_key (\<lambda>r. - price r) rs"

definition sorted_asks :: "row list \<Rightarrow> row list" where
  \<comment> \<open>\<^verbatim>\<open>sorted(asks.values(), key=lambda x: x.price)\<close>: stable, price ascending\<close>
  "sorted_asks rs = sort_key price rs"

definition processed_bids :: "config \<Rightarrow> row list \<Rightarrow> level list" where
  "processed_bids cfg rs =
     process_rows cfg (py_slice_to (orderbook_depth cfg) (sorted_bids rs))"

definition processed_asks :: "config \<Rightarrow> row list \<Rightarrow> level list" where
  "processed_asks cfg rs =
     process_rows cfg (py_slice_to (orderbook_depth cfg) (sorted_asks rs))"

definition first_price :: "level list \<Rightarrow> rat" where
  \<comment> \<open>\<^verbatim>\<open>levels[0]['price'] if levels else 0\<close>\<close>
  "first_price ls = (case ls of [] \<Rightarrow> 0 | l # _ \<Rightarrow> lv_price l)"

definition percent_of :: "rat \<Rightarrow> rat \<Rightarrow> exn + rat" where
  \<comment> \<open>\<^verbatim>\<open>(spread / mid_price * 100) if mid_price > 0 else 0\<close>\<close>
  "percent_of sp mid =
     (if 0 < mid
      then (case py_truediv sp mid of Inl e \<Rightarrow> Inl e | Inr q \<Rightarrow> Inr (q * 100))
      else Inr 0)"

definition process_orderbook ::
  "config \<Rightarrow> nat \<Rightarrow> nat \<Rightarrow> row list \<Rightarrow> row list \<Rightarrow> exn + orderbook_data" where
  \<comment> \<open>arguments: the configuration, the clock reading, \<^verbatim>\<open>self.update_count\<close>, and the
      values of the two sides of \<^verbatim>\<open>orderbook.snapshot\<close> in their order\<close>
  "process_orderbook cfg now cnt raw_bids raw_asks =
     (let pb = processed_bids cfg raw_bids;
          pa = processed_asks cfg raw_asks;
          bb = first_price pb;
          ba = first_price pa;
          mid = (if bb \<noteq> 0 \<and> ba \<noteq> 0 then (bb + ba) / 2 else 0);
          sp = (if bb \<noteq> 0 \<and> ba \<noteq> 0 then ba - bb else 0)
      in case percent_of sp mid of
           Inl e \<Rightarrow> Inl e
         | Inr pct \<Rightarrow>
             Inr \<lparr> data_timestamp = now,
                   data_connector = connector cfg,
                   data_trading_pair = trading_pair cfg,
                   bids = pb,
                   asks = pa,
                   best_bid = bb,
                   best_ask = ba,
                   mid_price = mid,
                   spread = sp,
                   spread_percent = pct,
                   total_bid_volume = sum_list (map lv_volume pb),
                   total_ask_volume = sum_list (map lv_volume pa),
                   data_update_count = cnt \<rparr>)"

subsection \<open>\<^verbatim>\<open>_detect_connector_type\<close>\<close>

text \<open>
  Connector names are strings of 8-bit characters; \<^verbatim>\<open>str.lower\<close> is modelled on the
  ASCII letters, the only ones that can produce a character of a keyword.
\<close>

definition perpetual_keywords :: "string list" where
  "perpetual_keywords =
     [''perpetual'', ''perp'', ''futures'', ''derivative'', ''dydx'', ''hyperliquid'',
      ''binance_perpetual'', ''bybit_perpetual'', ''okx_perpetual'', ''kucoin_perpetual'']"

definition lower_char :: "char \<Rightarrow> char" where
  "lower_char c =
     (let n = (of_char c :: nat) in if 65 \<le> n \<and> n \<le> 90 then char_of (n + 32) else c)"

definition py_lower :: "string \<Rightarrow> string" where
  "py_lower s = map lower_char s"

definition starts_with :: "string \<Rightarrow> string \<Rightarrow> bool" where
  "starts_with k s = (take (length k) s = k)"

fun py_in :: "string \<Rightarrow> string \<Rightarrow> bool" where
  \<comment> \<open>\<^verbatim>\<open>k in s\<close> on strings: \<open>k\<close> occurs in \<open>s\<close> as a contiguous block\<close>
  "py_in k [] = (k = [])"
| "py_in k (c # cs) = (starts_with k (c # cs) \<or> py_in k cs)"

fun str_truthy :: "string option \<Rightarrow> bool" where
  "str_truthy None = False"
| "str_truthy (Some s) = (s \<noteq> [])"

fun detect_loop :: "string list \<Rightarrow> string \<Rightarrow> string" where
  \<comment> \<open>the \<^verbatim>\<open>for keyword in perpetual_keywords\<close> loop and the default after it\<close>
  "detect_loop [] connector_lower = ''spot''"
| "detect_loop (keyword # keywords) connector_lower =
     (if py_in keyword connector_lower then ''perpetual''
      else detect_loop keywords connector_lower)"

definition detect_connector_type :: "config \<Rightarrow> config" where
  "detect_connector_type cfg =
     (let connector_lower = py_lower (connector cfg)
      in if str_truthy (connector_type cfg) then cfg
         else cfg\<lparr>connector_type := Some (detect_loop perpetual_keywords connector_lower)\<rparr>)"

subsection \<open>\<^verbatim>\<open>check_alerts\<close>\<close>

datatype alert =
    High_spread rat rat   \<comment> \<open>observed spread percentage, threshold\<close>
  | Low_volume rat rat    \<comment> \<open>observed total volume, threshold\<close>

definition check_alerts_list :: "config \<Rightarrow> orderbook_data \<Rightarrow> alert list" where
  \<comment> \<open>the local list \<^verbatim>\<open>alerts\<close> when the final loop over it starts\<close>
  "check_alerts_list cfg d =
     (case spread_alert_threshold cfg of
        None \<Rightarrow> []
      | Some t \<Rightarrow>
          if t \<noteq> 0 \<and> t < spread_percent d then [High_spread (spread_percent d) t] else [])
     @
     (case volume_alert_threshold cfg of
        None \<Rightarrow> []
      | Some t \<Rightarrow>
          if t \<noteq> 0
          then (let total_volume = float_add (total_bid_volume d) (total_ask_volume d)
                in if total_volume < t then [Low_volume total_volume t] else [])
          else [])"

fun is_high_spread :: "alert \<Rightarrow> bool" where
  "is_high_spread (High_spread p t) = True"
| "is_high_spread (Low_volume v t) = False"

fun is_low_volume :: "alert \<Rightarrow> bool" where
  "is_low_volume (High_spread p t) = False"
| "is_low_volume (Low_volume v t) = True"

subsection \<open>The monitor and one tick\<close>

datatype log_entry =
    Error_connector_not_found
  | Error_get_orderbook exn
  | Warning_no_orderbook
  | Error_in_fetch exn
  | Json_document orderbook_data
  | Csv_header
  | Csv_row orderbook_data
  | Compact_line orderbook_data
  | Full_table orderbook_data
  | Warning_alert alert
  | Info_stopped

record monitor =
  config :: config
  last_update_time :: "nat option"
  update_count :: nat
  is_running :: bool
  orderbook_history :: "orderbook_data list"
  logged :: "log_entry list"

text \<open>
  What one tick meets outside the script: the connector collections of the base class,
  each connector answering \<^verbatim>\<open>get_order_book(trading_pair)\<close>, the clock, and whether
  the external calls of a stage (reading \<^verbatim>\<open>orderbook.snapshot\<close>, writing to the logger)
  raise.
\<close>

datatype book_reply = Book_raises exn | No_book | Book "row list" "row list"

type_synonym provider = "string \<Rightarrow> book_reply"

datatype stage = Process | Display | Alerts

record env =
  connectors :: "string \<rightharpoonup> provider"
  derivative_connectors :: "(string \<rightharpoonup> provider) option"
  clock :: nat
  fault :: "stage \<Rightarrow> exn option"

definition emit :: "log_entry \<Rightarrow> monitor \<Rightarrow> monitor" where
  "emit l m = m\<lparr>logged := logged m @ [l]\<rparr>"

definition init_monitor :: "config \<Rightarrow> monitor" where
  \<comment> \<open>\<^verbatim>\<open>__init__\<close>\<close>
  "init_monitor cfg =
     \<lparr> config = detect_connector_type cfg,
       last_update_time = None,
       update_count = 0,
       is_running = True,
       orderbook_history = [],
       logged = [] \<rparr>"

definition display_table_format :: "orderbook_data \<Rightarrow> monitor \<Rightarrow> monitor" where
  "display_table_format d m =
     (if compact_display (config m) then emit (Compact_line d) m else emit (Full_table d) m)"

definition display_json_format :: "orderbook_data \<Rightarrow> monitor \<Rightarrow> monitor" where
  "display_json_format d m = emit (Json_document d) m"

definition display_csv_format :: "orderbook_data \<Rightarrow> monitor \<Rightarrow> monitor" where
  "display_csv_format d m =
     emit (Csv_row d) (if update_count m = 1 then emit Csv_header m else m)"

definition check_alerts :: "orderbook_data \<Rightarrow> monitor \<Rightarrow> monitor" where
  "check_alerts d m =
     m\<lparr>logged := logged m @ map Warning_alert (check_alerts_list (config m) d)\<rparr>"

definition get_connector :: "env \<Rightarrow> config \<Rightarrow> provider option" where
  "get_connector e cfg =
     (if connector_type cfg = Some ''perpetual''
      then (case derivative_connectors e of
              None \<Rightarrow> None
            | Some dc \<Rightarrow> dc (connector cfg))
      else connectors e (connector cfg))"

definition store_history :: "orderbook_data list \<Rightarrow> orderbook_data \<Rightarrow> orderbook_data list" where
  \<comment> \<open>\<^verbatim>\<open>if len(h) > 100: h.pop(0)\<close> and then \<^verbatim>\<open>h.append(d)\<close>\<close>
  "store_history h d = (if 100 < length h then tl h else h) @ [d]"

definition display :: "orderbook_data \<Rightarrow> monitor \<Rightarrow> monitor" where
  "display d m =
     (if json_output (config m) then display_json_format d m
      else if csv_output (config m) then display_csv_format d m
      else display_table_format d m)"

definition fetch_and_display_orderbook :: "env \<Rightarrow> monitor \<Rightarrow> exn option \<times> monitor" where
  \<comment> \<open>the result pairs the exception that leaves the method, if any, with the state\<close>
  "fetch_and_display_orderbook e m =
     (case get_connector e (config m) of
        None \<Rightarrow> (None, emit Error_connector_not_found m)
      | Some conn \<Rightarrow>
         (case conn (trading_pair (config m)) of
            Book_raises x \<Rightarrow> (None, emit (Error_get_orderbook x) m)
          | No_book \<Rightarrow> (None, emit Warning_no_orderbook m)
          | Book raw_bids raw_asks \<Rightarrow>
             (case fault e Process of
                Some x \<Rightarrow> (Some x, m)
              | None \<Rightarrow>
                 (case process_orderbook (config m) (clock e) (update_count m) raw_bids raw_asks of
                    Inl x \<Rightarrow> (Some x, m)
                  | Inr d \<Rightarrow>
                     (case fault e Display of
                        Some x \<Rightarrow> (Some x, m)
                      | None \<Rightarrow>
                         (let m1 = display d m
                          in case fault e Alerts of
                               Some x \<Rightarrow> (Some x, m1)
                             | None \<Rightarrow>
                                 (let m2 = check_alerts d m1
                                  in (None,
                                      m2\<lparr>update_count := update_count m2 + 1,
                                         last_update_time := Some (clock e),
                                         orderbook_history :=
                                           store_history (orderbook_history m2) d\<rparr>))))))))"

definition on_tick :: "env \<Rightarrow> monitor \<Rightarrow> exn option \<times> monitor" where
  "on_tick e m =
     (if \<not> is_running m then (None, m)
      else (case fetch_and_display_orderbook e m of
              (Some x, m') \<Rightarrow> (None, emit (Error_in_fetch x) m')
            | (None, m') \<Rightarrow> (None, m')))"

definition stop_monitoring :: "monitor \<Rightarrow> monitor" where
  "stop_monitoring m = emit Info_stopped (m\<lparr>is_running := False\<rparr>)"

fun run_ticks :: "env list \<Rightarrow> monitor \<Rightarrow> exn option \<times> monitor" where
  \<comment> \<open>the scheduler calling \<^verbatim>\<open>on_tick\<close> once per environment; an exception that leaves
      \<^verbatim>\<open>on_tick\<close> ends the run\<close>
  "run_ticks [] m = (None, m)"
| "run_ticks (e # es) m =
     (case on_tick e m of
        (Some x, m') \<Rightarrow> (Some x, m')
      | (None, m') \<Rightarrow> run_ticks es m')"

subsection \<open>Defaults and sample inputs\<close>

definition default_config :: config where
  \<comment> \<open>the class attributes of \<^verbatim>\<open>RealtimeOrderbookConfig\<close>\<close>
  "default_config =
     \<lparr> connector = ''binance_paper_trade'',
       trading_pair = ''ETH-USDT'',
       orderbook_depth = 10,
       connector_type = Some ''spot'',
       compact_display = False,
       min_volume_filter = None,
       price_precision = 4,
       volume_precision = 4,
       json_output = False,
       csv_output = False,
       spread_alert_threshold = None,
       volume_alert_threshold = None \<rparr>"

definition level_row :: "level \<Rightarrow> row" where
  \<comment> \<open>a reduced level read back as a raw row, to reduce it again\<close>
  "level_row l = \<lparr> price = lv_price l, amount = lv_volume l \<rparr>"

definition spec_reduce_side :: "config \<Rightarrow> row list \<Rightarrow> level list" where
  \<comment> \<open>the specification's wording of steps 2 to 4 of the reducer, on a sorted side: drop
      the levels below the threshold first, then keep the first \<open>depth\<close>, then round\<close>
  "spec_reduce_side cfg sorted_rows =
     map (make_level cfg)
       (take (nat (orderbook_depth cfg))
          (case min_volume_filter cfg of
             None \<Rightarrow> sorted_rows
           | Some t \<Rightarrow> filter (\<lambda>r. \<not> amount r < t) sorted_rows))"

definition scenario_bids :: "row list" where
  "scenario_bids = [\<lparr>price = 100, amount = 2\<rparr>, \<lparr>price = 99, amount = 5\<rparr>]"

definition scenario_asks :: "row list" where
  "scenario_asks = [\<lparr>price = 101, amount = 3\<rparr>, \<lparr>price = 102, amount = 1\<rparr>]"

definition thin_top_bids :: "row list" where
  "thin_top_bids =
     [\<lparr>price = 100, amount = 1\<rparr>, \<lparr>price = 99, amount = 5\<rparr>, \<lparr>price = 98, amount = 5\<rparr>]"

definition scenario_config :: config where
  "scenario_config =
     default_config\<lparr>orderbook_depth := 2, price_precision := 2, volume_precision := 2\<rparr>"

definition filtering_config :: config where
  "filtering_config = default_config\<lparr>orderbook_depth := 2, min_volume_filter := Some 2\<rparr>"

definition negative_depth_config :: config where
  "negative_depth_config = default_config\<lparr>orderbook_depth := - 1\<rparr>"

definition dyadic_bids :: "row list" where
  "dyadic_bids = [\<lparr>price = 96, amount = 2\<rparr>]"

definition dyadic_asks :: "row list" where
  "dyadic_asks = [\<lparr>price = 160, amount = 3\<rparr>]"

definition dyadic_data :: orderbook_data where
  \<comment> \<open>the reduction of the one-level book above at clock 0 and update count 0: every
      number in it is a small integer, so each floating-point step of the script is exact\<close>
  "dyadic_data =
     \<lparr> data_timestamp = 0,
       data_connector = ''binance_paper_trade'',
       data_trading_pair = ''ETH-USDT'',
       bids = [\<lparr>lv_price = 96, lv_volume = 2, lv_total = 192\<rparr>],
       asks = [\<lparr>lv_price = 160, lv_volume = 3, lv_total = 480\<rparr>],
       best_bid = 96,
       best_ask = 160,
       mid_price = 128,
       spread = 64,
       spread_percent = 50,
       total_bid_volume = 2,
       total_ask_volume = 3,
       data_update_count = 0 \<rparr>"

definition zero_threshold_config :: config where
  "zero_threshold_config =
     scenario_config\<lparr>spread_alert_threshold := Some 0, volume_alert_threshold := Some 4\<rparr>"

definition alerting_config :: config where
  "alerting_config =
     scenario_config\<lparr>spread_alert_threshold := Some 25, volume_alert_threshold := Some 8\<rparr>"

definition boundary_config :: config where
  "boundary_config =
     scenario_config\<lparr>spread_alert_threshold := Some 50, volume_alert_threshold := Some 5\<rparr>"

definition spread_only_config :: config where
  "spread_only_config = scenario_config\<lparr>spread_alert_threshold := Some 25\<rparr>"

definition scenario_data :: orderbook_data where
  \<comment> \<open>the reduction of the scenario at clock 0 and update count 0, written out\<close>
  "scenario_data =
     \<lparr> data_timestamp = 0,
       data_connector = ''binance_paper_trade'',
       data_trading_pair = ''ETH-USDT'',
       bids = [\<lparr>lv_price = 100, lv_volume = 2, lv_total = 200\<rparr>,
               \<lparr>lv_price = 99, lv_volume = 5, lv_total = 495\<rparr>],
       asks = [\<lparr>lv_price = 101, lv_volume = 3, lv_total = 303\<rparr>,
               \<lparr>lv_price = 102, lv_volume = 1, lv_total = 102\<rparr>],
       best_bid = 100,
       best_ask = 101,
       mid_price = 201 / 2,
       spread = 1,
       spread_percent = 200 / 201,
       total_bid_volume = 7,
       total_ask_volume = 4,
       data_update_count = 0 \<rparr>"

definition perpetual_venue_config :: config where
  \<comment> \<open>a configuration for which no connector type was given: \<^verbatim>\<open>main()\<close> run with
      \<^verbatim>\<open>--connector binance_perpetual\<close> and no \<^verbatim>\<open>--type\<close>\<close>
  "perpetual_venue_config = default_config\<lparr>connector := ''binance_perpetual''\<rparr>"

definition healthy :: "env \<Rightarrow> config \<Rightarrow> bool" where
  \<comment> \<open>a tick that meets its connector, gets a book from it, and no raising external call\<close>
  "healthy e cfg =
     (case get_connector e cfg of
        None \<Rightarrow> False
      | Some conn \<Rightarrow>
         (case conn (trading_pair cfg) of
            Book raw_bids raw_asks \<Rightarrow>
              fault e Process = None \<and> fault e Display = None \<and> fault e Alerts = None
          | _ \<Rightarrow> False))"

definition scenario_provider :: provider where
  "scenario_provider pair = Book scenario_bids scenario_asks"

definition steady_env :: env where
  "steady_env =
     \<lparr> connectors = [''binance_paper_trade'' \<mapsto> scenario_provider],
       derivative_connectors = None,
       clock = 0,
       fault = (\<lambda>s. None) \<rparr>"

definition failing_display_env :: env where
  "failing_display_env = steady_env\<lparr>fault := (\<lambda>s. if s = Display then Some (Raised ''display'') else None)\<rparr>"

definition csv_config :: config where
  "csv_config = scenario_config\<lparr>csv_output := True\<rparr>"

section \<open>Properties\<close>

subsection \<open>Rounding\<close>

lemma rhe_lower: "\<lfloor>x\<rfloor> \<le> round_half_even x"
  by (simp add: round_half_even_def Let_def)

lemma rhe_upper: "round_half_even x \<le> \<lfloor>x\<rfloor> + 1"
  by (simp add: round_half_even_def Let_def)

lemma rhe_same_floor:
  assumes "x \<le> y" and "\<lfloor>x\<rfloor> = \<lfloor>y\<rfloor>"
  shows "round_half_even x \<le> round_half_even y"
proof -
  have "x - of_int \<lfloor>x\<rfloor> \<le> y - of_int \<lfloor>y\<rfloor>"
    using assms by simp
  then show ?thesis
    using assms(2) by (auto simp add: round_half_even_def Let_def)
qed

lemma rhe_mono:
  assumes "x \<le> y"
  shows "round_half_even x \<le> round_half_even y"
proof (cases "\<lfloor>x\<rfloor> = \<lfloor>y\<rfloor>")
  case True
  with assms show ?thesis by (rule rhe_same_floor)
next
  case False
  have "\<lfloor>x\<rfloor> \<le> \<lfloor>y\<rfloor>" using assms by (rule floor_mono)
  with False have "\<lfloor>x\<rfloor> + 1 \<le> \<lfloor>y\<rfloor>" by simp
  then show ?thesis
    using rhe_upper [of x] rhe_lower [of y] by linarith
qed

lemma rhe_of_int: "round_half_even (of_int k) = k"
  by (simp add: round_half_even_def)

lemma py_round_mono:
  assumes "x \<le> y"
  shows "py_round x n \<le> py_round y n"
proof (cases "0 \<le> n")
  case True
  have "x * 10 ^ nat n \<le> y * 10 ^ nat n"
    using assms by (simp add: mult_right_mono)
  then have "round_half_even (x * 10 ^ nat n) \<le> round_half_even (y * 10 ^ nat n)"
    by (rule rhe_mono)
  then show ?thesis
    using True by (simp add: py_round_def divide_right_mono)
next
  case False
  have "x / 10 ^ nat (- n) \<le> y / 10 ^ nat (- n)"
    using assms by (simp add: divide_right_mono)
  then have "round_half_even (x / 10 ^ nat (- n)) \<le> round_half_even (y / 10 ^ nat (- n))"
    by (rule rhe_mono)
  then show ?thesis
    using False by (simp add: py_round_def mult_right_mono)
qed

lemma py_round_idem: "py_round (py_round x n) n = py_round x n"
  by (simp add: py_round_def rhe_of_int)

subsection \<open>The two sides of the reduction\<close>

lemma process_rows_filter_map:
  "process_rows cfg rs =
     map (make_level cfg) (filter (\<lambda>r. \<not> below_filter (min_volume_filter cfg) (amount r)) rs)"
  by (induction rs) simp_all

lemma py_slice_to_take: "\<exists>k. py_slice_to d xs = take k xs"
  by (auto simp add: py_slice_to_def)

lemma length_py_slice_to: "0 \<le> d \<Longrightarrow> length (py_slice_to d xs) \<le> nat d"
  by (simp add: py_slice_to_def)


lemma length_process_rows: "length (process_rows cfg rs) \<le> length rs"
  by (simp add: process_rows_filter_map)

lemma sorted_map_take: "sorted (map f xs) \<Longrightarrow> sorted (map f (take k xs))"
  by (simp add: take_map [symmetric] sorted_wrt_take)

lemma sorted_map_slice: "sorted (map f xs) \<Longrightarrow> sorted (map f (py_slice_to d xs))"
  using py_slice_to_take [of d xs] sorted_map_take [of f xs] by auto

lemma sorted_map_py_round:
  "sorted (map f xs) \<Longrightarrow> sorted (map (\<lambda>r. py_round (f r) n) xs)"
  by (induction xs) (auto simp add: py_round_mono)

lemma sorted_lv_price_process_rows:
  assumes "sorted (map price rs)"
  shows "sorted (map lv_price (process_rows cfg rs))"
proof -
  let ?P = "\<lambda>r. \<not> below_filter (min_volume_filter cfg) (amount r)"
  have "sorted (map price (filter ?P rs))"
    using assms by (rule sorted_filter)
  then have "sorted (map (\<lambda>r. py_round (price r) (price_precision cfg)) (filter ?P rs))"
    by (rule sorted_map_py_round)
  then show ?thesis
    by (simp add: process_rows_filter_map make_level_def comp_def)
qed

lemma sorted_neg_lv_price_process_rows:
  assumes "sorted (map (\<lambda>r. - price r) rs)"
  shows "sorted (rev (map lv_price (process_rows cfg rs)))"
proof -
  let ?P = "\<lambda>r. \<not> below_filter (min_volume_filter cfg) (amount r)"
  let ?g = "\<lambda>r. py_round (price r) (price_precision cfg)"
  have "sorted (map (\<lambda>r. - price r) (filter ?P rs))"
    using assms by (rule sorted_filter)
  then have "sorted_wrt (\<lambda>a b. price b \<le> price a) (filter ?P rs)"
    by (simp add: sorted_wrt_map)
  then have "sorted_wrt (\<lambda>a b. ?g b \<le> ?g a) (filter ?P rs)"
    by (rule sorted_wrt_mono_rel [rotated]) (simp add: py_round_mono)
  then have "sorted_wrt (\<lambda>a b. b \<le> a) (map ?g (filter ?P rs))"
    by (simp add: sorted_wrt_map)
  then have "sorted (rev (map ?g (filter ?P rs)))"
    by (simp add: sorted_wrt_rev)
  then show ?thesis
    by (simp add: process_rows_filter_map make_level_def comp_def)
qed

lemma sorted_asks_sorted: "sorted (map price (sorted_asks rs))"
  by (simp add: sorted_asks_def)

lemma sorted_bids_sorted: "sorted (map (\<lambda>r. - price r) (sorted_bids rs))"
  by (simp add: sorted_bids_def)

lemma process_orderbook_Inr:
  "\<exists>d. process_orderbook cfg now cnt raw_bids raw_asks = Inr d
     \<and> bids d = processed_bids cfg raw_bids
     \<and> asks d = processed_asks cfg raw_asks
     \<and> best_bid d = first_price (bids d)
     \<and> best_ask d = first_price (asks d)
     \<and> mid_price d = (if best_bid d \<noteq> 0 \<and> best_ask d \<noteq> 0 then (best_bid d + best_ask d) / 2 else 0)
     \<and> spread d = (if best_bid d \<noteq> 0 \<and> best_ask d \<noteq> 0 then best_ask d - best_bid d else 0)
     \<and> spread_percent d = (if 0 < mid_price d then spread d / mid_price d * 100 else 0)
     \<and> total_bid_volume d = sum_list (map lv_volume (bids d))
     \<and> total_ask_volume d = sum_list (map lv_volume (asks d))
     \<and> data_update_count d = cnt"
  by (simp add: process_orderbook_def percent_of_def py_truediv_def Let_def)

subsection \<open>The volume filter and the depth (C1)\<close>

text \<open>
  C1, as stated: the filter runs before the truncation, so a side keeps the first \<open>depth\<close>
  levels among those that pass. The script slices the sorted side to \<open>depth\<close> first and
  tests the threshold inside the loop over the slice. With depth 2 and threshold 2, the bids
  (100, 1), (99, 5), (98, 5) reduce to the single level at 99, where the stated order would
  keep 99 and 98.
\<close>
theorem min_volume_filter_before_truncation_counterexample:
  "min_volume_filter filtering_config = Some 2 \<and> orderbook_depth filtering_config = 2
   \<and> map level_row (processed_bids filtering_config thin_top_bids) = [\<lparr>price = 99, amount = 5\<rparr>]
   \<and> map level_row (spec_reduce_side filtering_config (sorted_bids thin_top_bids))
       = [\<lparr>price = 99, amount = 5\<rparr>, \<lparr>price = 98, amount = 5\<rparr>]"
  by code_simp


text \<open>
  C1, amended: with a threshold \<open>t\<close> configured, each side of the reduction consists of the
  levels of the slice \<^verbatim>\<open>[:depth]\<close> of the sorted side, in order, without those whose
  size is strictly below \<open>t\<close> (a size equal to \<open>t\<close> stays); the filter runs after the
  truncation, and a threshold of zero removes nothing.
\<close>

theorem min_volume_filter_after_truncation:
  assumes "min_volume_filter cfg = Some t"
  shows "\<exists>d. process_orderbook cfg now cnt raw_bids raw_asks = Inr d
     \<and> bids d = map (make_level cfg)
         (filter (\<lambda>r. t = 0 \<or> t \<le> amount r)
            (py_slice_to (orderbook_depth cfg) (sorted_bids raw_bids)))
     \<and> asks d = map (make_level cfg)
         (filter (\<lambda>r. t = 0 \<or> t \<le> amount r)
            (py_slice_to (orderbook_depth cfg) (sorted_asks raw_asks)))"
proof -
  obtain d where d: "process_orderbook cfg now cnt raw_bids raw_asks = Inr d"
      "bids d = processed_bids cfg raw_bids" "asks d = processed_asks cfg raw_asks"
    using process_orderbook_Inr [of cfg now cnt raw_bids raw_asks] by blast
  have "bids d = map (make_level cfg)
         (filter (\<lambda>r. t = 0 \<or> t \<le> amount r)
            (py_slice_to (orderbook_depth cfg) (sorted_bids raw_bids)))"
    using d(2) assms
    by (simp add: processed_bids_def process_rows_filter_map not_less)
  moreover have "asks d = map (make_level cfg)
         (filter (\<lambda>r. t = 0 \<or> t \<le> amount r)
            (py_slice_to (orderbook_depth cfg) (sorted_asks raw_asks)))"
    using d(3) assms
    by (simp add: processed_asks_def process_rows_filter_map not_less)
  ultimately show ?thesis using d(1) by blast
qed

theorem min_volume_filter_after_truncation_witness:
  "min_volume_filter filtering_config = Some 2
   \<and> (\<exists>d. process_orderbook filtering_config 0 0 thin_top_bids scenario_asks = Inr d
          \<and> map level_row (bids d) = [\<lparr>price = 99, amount = 5\<rparr>])"
proof -
  have h: "min_volume_filter filtering_config = Some 2" by code_simp
  have e: "map level_row (map (make_level filtering_config)
         (filter (\<lambda>r. (2::rat) = 0 \<or> 2 \<le> amount r)
            (py_slice_to (orderbook_depth filtering_config) (sorted_bids thin_top_bids))))
        = [\<lparr>price = 99, amount = 5\<rparr>]"
    by code_simp
  from min_volume_filter_after_truncation [OF h, of 0 0 thin_top_bids scenario_asks]
  obtain d where "process_orderbook filtering_config 0 0 thin_top_bids scenario_asks = Inr d"
    and "bids d = map (make_level filtering_config)
         (filter (\<lambda>r. (2::rat) = 0 \<or> 2 \<le> amount r)
            (py_slice_to (orderbook_depth filtering_config) (sorted_bids thin_top_bids)))"
    by blast
  with h e show ?thesis by simp
qed

subsection \<open>An empty side (C5)\<close>

lemma first_price_Nil: "first_price [] = 0"
  by (simp add: first_price_def)

text \<open>
  C5: the reduction always returns a result (no division by zero, no other exception of
  its own), and when the reduced bids or the reduced asks are empty the best price of that
  side, the mid price, the spread and the spread percentage are all 0.
\<close>

theorem empty_side_zero_metrics:
  "\<exists>d. process_orderbook cfg now cnt raw_bids raw_asks = Inr d
     \<and> (bids d = [] \<longrightarrow>
          best_bid d = 0 \<and> mid_price d = 0 \<and> spread d = 0 \<and> spread_percent d = 0)
     \<and> (asks d = [] \<longrightarrow>
          best_ask d = 0 \<and> mid_price d = 0 \<and> spread d = 0 \<and> spread_percent d = 0)"
proof -
  obtain d where d: "process_orderbook cfg now cnt raw_bids raw_asks = Inr d"
      "best_bid d = first_price (bids d)" "best_ask d = first_price (asks d)"
      "mid_price d = (if best_bid d \<noteq> 0 \<and> best_ask d \<noteq> 0 then (best_bid d + best_ask d) / 2 else 0)"
      "spread d = (if best_bid d \<noteq> 0 \<and> best_ask d \<noteq> 0 then best_ask d - best_bid d else 0)"
      "spread_percent d = (if 0 < mid_price d then spread d / mid_price d * 100 else 0)"
    using process_orderbook_Inr [of cfg now cnt raw_bids raw_asks] by blast
  have "bids d = [] \<longrightarrow>
          best_bid d = 0 \<and> mid_price d = 0 \<and> spread d = 0 \<and> spread_percent d = 0"
    using d(2,4,5,6) by (simp add: first_price_Nil)
  moreover have "asks d = [] \<longrightarrow>
          best_ask d = 0 \<and> mid_price d = 0 \<and> spread d = 0 \<and> spread_percent d = 0"
    using d(3,4,5,6) by (simp add: first_price_Nil)
  ultimately show ?thesis using d(1) by blast
qed

theorem empty_side_zero_metrics_witness:
  "\<exists>d. process_orderbook scenario_config 0 0 scenario_bids [] = Inr d
     \<and> bids d \<noteq> [] \<and> asks d = []
     \<and> best_ask d = 0 \<and> mid_price d = 0 \<and> spread d = 0 \<and> spread_percent d = 0"
proof -
  have a: "processed_asks scenario_config [] = []" by code_simp
  have b: "processed_bids scenario_config scenario_bids \<noteq> []" by code_simp
  obtain d where d: "process_orderbook scenario_config 0 0 scenario_bids [] = Inr d"
      "bids d = processed_bids scenario_config scenario_bids"
      "asks d = processed_asks scenario_config []"
    using process_orderbook_Inr [of scenario_config 0 0 scenario_bids "[]"] by blast
  from empty_side_zero_metrics [of scenario_config 0 0 scenario_bids "[]"] d(1)
  have "asks d = [] \<longrightarrow>
          best_ask d = 0 \<and> mid_price d = 0 \<and> spread d = 0 \<and> spread_percent d = 0"
    by auto
  with a b d show ?thesis by auto
qed

subsection \<open>Order and length of the reduced sides (C6)\<close>

text \<open>
  C6, as stated, bounds the length of each side by every configured depth. The depth is a
  Python \<^verbatim>\<open>int\<close> used as a slice bound: with depth \<open>-1\<close> the slice drops the last
  level only, and the two-level sides of the scenario keep one level each, more than \<open>-1\<close>.
\<close>
theorem depth_bound_counterexample:
  "orderbook_depth negative_depth_config = - 1
   \<and> (case process_orderbook negative_depth_config 0 0 scenario_bids scenario_asks of
        Inl x \<Rightarrow> False
      | Inr d \<Rightarrow> length (bids d) = 1 \<and> length (asks d) = 1)"
  by code_simp

text \<open>
  C6, amended: for every raw book and every configuration the reduced bids are
  non-increasing by price and the reduced asks non-decreasing by price; when the configured
  depth is not negative, each side has at most \<open>depth\<close> levels.
\<close>

theorem reduced_sides_sorted_and_bounded:
  "\<exists>d. process_orderbook cfg now cnt raw_bids raw_asks = Inr d
     \<and> sorted (rev (map lv_price (bids d)))
     \<and> sorted (map lv_price (asks d))
     \<and> (0 \<le> orderbook_depth cfg \<longrightarrow>
          int (length (bids d)) \<le> orderbook_depth cfg
          \<and> int (length (asks d)) \<le> orderbook_depth cfg)"
proof -
  obtain d where d: "process_orderbook cfg now cnt raw_bids raw_asks = Inr d"
      "bids d = processed_bids cfg raw_bids" "asks d = processed_asks cfg raw_asks"
    using process_orderbook_Inr [of cfg now cnt raw_bids raw_asks] by blast
  have "sorted (map (\<lambda>r. - price r) (py_slice_to (orderbook_depth cfg) (sorted_bids raw_bids)))"
    using sorted_bids_sorted by (rule sorted_map_slice)
  then have sb: "sorted (rev (map lv_price (bids d)))"
    unfolding d(2) processed_bids_def by (rule sorted_neg_lv_price_process_rows)
  have "sorted (map price (py_slice_to (orderbook_depth cfg) (sorted_asks raw_asks)))"
    using sorted_asks_sorted by (rule sorted_map_slice)
  then have sa: "sorted (map lv_price (asks d))"
    unfolding d(3) processed_asks_def by (rule sorted_lv_price_process_rows)
  have len: "0 \<le> orderbook_depth cfg \<longrightarrow>
          int (length (bids d)) \<le> orderbook_depth cfg
          \<and> int (length (asks d)) \<le> orderbook_depth cfg"
  proof
    assume nn: "0 \<le> orderbook_depth cfg"
    have "length (bids d) \<le> length (py_slice_to (orderbook_depth cfg) (sorted_bids raw_bids))"
      unfolding d(2) processed_bids_def by (rule length_process_rows)
    also have "\<dots> \<le> nat (orderbook_depth cfg)"
      using nn by (rule length_py_slice_to)
    finally have lb: "int (length (bids d)) \<le> orderbook_depth cfg" using nn by linarith
    have "length (asks d) \<le> length (py_slice_to (orderbook_depth cfg) (sorted_asks raw_asks))"
      unfolding d(3) processed_asks_def by (rule length_process_rows)
    also have "\<dots> \<le> nat (orderbook_depth cfg)"
      using nn by (rule length_py_slice_to)
    finally have "int (length (asks d)) \<le> orderbook_depth cfg" using nn by linarith
    with lb show "int (length (bids d)) \<le> orderbook_depth cfg
          \<and> int (length (asks d)) \<le> orderbook_depth cfg" by simp
  qed
  from d(1) sb sa len show ?thesis by blast
qed

theorem reduced_sides_sorted_and_bounded_witness:
  "0 \<le> orderbook_depth scenario_config
   \<and> (\<exists>d. process_orderbook scenario_config 0 0 scenario_bids scenario_asks = Inr d
        \<and> sorted (rev (map lv_price (bids d)))
        \<and> sorted (map lv_price (asks d))
        \<and> int (length (bids d)) \<le> 2 \<and> int (length (asks d)) \<le> 2)"
proof -
  have h: "0 \<le> orderbook_depth scenario_config" by code_simp
  have k: "orderbook_depth scenario_config = 2" by code_simp
  from reduced_sides_sorted_and_bounded [of scenario_config 0 0 scenario_bids scenario_asks] h k
  show ?thesis by auto
qed

subsection \<open>Rounding again (C9)\<close>

lemma make_level_level_row:
  assumes "py_round (price r) (price_precision cfg) = price r"
    and "py_round (amount r) (volume_precision cfg) = amount r"
  shows "make_level cfg (level_row (make_level cfg r)) = make_level cfg r"
  using assms by (simp add: make_level_def level_row_def)




lemma relevel_process_rows:
  assumes "\<forall>r\<in>set rs. py_round (price r) (price_precision cfg) = price r
             \<and> py_round (amount r) (volume_precision cfg) = amount r"
  shows "map (make_level cfg \<circ> level_row) (process_rows cfg rs) = process_rows cfg rs"
  using assms by (induction rs) (simp_all add: make_level_level_row)



lemma process_orderbook_cong:
  assumes "processed_bids cfg b' = processed_bids cfg b"
    and "processed_asks cfg a' = processed_asks cfg a"
  shows "process_orderbook cfg now cnt b' a' = process_orderbook cfg now cnt b a"
  using assms by (simp add: process_orderbook_def)




subsection \<open>Thresholds configured to zero (C10)\<close>

lemma make_level_filter_irrelevant [simp]:
  "make_level (cfg\<lparr>min_volume_filter := f\<rparr>) = make_level cfg"
  by (rule ext) (simp add: make_level_def)

text \<open>
  C10: each of the three options is tested for truth before it is compared, so the value 0
  behaves as \<^verbatim>\<open>None\<close>: with \<^verbatim>\<open>min_volume_filter\<close> 0 the reduction is the one without a
  filter and every level of the slice is kept; with \<^verbatim>\<open>spread_alert_threshold\<close> 0 the
  alerts are those without the option and no high-spread alert is among them; likewise for
  \<^verbatim>\<open>volume_alert_threshold\<close> 0 and the low-volume alert.
\<close>

theorem zero_threshold_disables:
  "process_orderbook (cfg\<lparr>min_volume_filter := Some 0\<rparr>) now cnt raw_bids raw_asks
     = process_orderbook (cfg\<lparr>min_volume_filter := None\<rparr>) now cnt raw_bids raw_asks
   \<and> processed_bids (cfg\<lparr>min_volume_filter := Some 0\<rparr>) raw_bids
       = map (make_level cfg) (py_slice_to (orderbook_depth cfg) (sorted_bids raw_bids))
   \<and> processed_asks (cfg\<lparr>min_volume_filter := Some 0\<rparr>) raw_asks
       = map (make_level cfg) (py_slice_to (orderbook_depth cfg) (sorted_asks raw_asks))
   \<and> check_alerts_list (cfg\<lparr>spread_alert_threshold := Some 0\<rparr>) d
       = check_alerts_list (cfg\<lparr>spread_alert_threshold := None\<rparr>) d
   \<and> (\<forall>p t. High_spread p t \<notin> set (check_alerts_list (cfg\<lparr>spread_alert_threshold := Some 0\<rparr>) d))
   \<and> check_alerts_list (cfg\<lparr>volume_alert_threshold := Some 0\<rparr>) d
       = check_alerts_list (cfg\<lparr>volume_alert_threshold := None\<rparr>) d
   \<and> (\<forall>v t. Low_volume v t \<notin> set (check_alerts_list (cfg\<lparr>volume_alert_threshold := Some 0\<rparr>) d))"
proof -
  have pb: "processed_bids (cfg\<lparr>min_volume_filter := Some 0\<rparr>) raw_bids
       = map (make_level cfg) (py_slice_to (orderbook_depth cfg) (sorted_bids raw_bids))"
    by (simp add: processed_bids_def process_rows_filter_map)
  have pa: "processed_asks (cfg\<lparr>min_volume_filter := Some 0\<rparr>) raw_asks
       = map (make_level cfg) (py_slice_to (orderbook_depth cfg) (sorted_asks raw_asks))"
    by (simp add: processed_asks_def process_rows_filter_map)
  have pb': "processed_bids (cfg\<lparr>min_volume_filter := None\<rparr>) raw_bids
       = map (make_level cfg) (py_slice_to (orderbook_depth cfg) (sorted_bids raw_bids))"
    by (simp add: processed_bids_def process_rows_filter_map)
  have pa': "processed_asks (cfg\<lparr>min_volume_filter := None\<rparr>) raw_asks
       = map (make_level cfg) (py_slice_to (orderbook_depth cfg) (sorted_asks raw_asks))"
    by (simp add: processed_asks_def process_rows_filter_map)
  have po: "process_orderbook (cfg\<lparr>min_volume_filter := Some 0\<rparr>) now cnt raw_bids raw_asks
     = process_orderbook (cfg\<lparr>min_volume_filter := None\<rparr>) now cnt raw_bids raw_asks"
    by (simp add: process_orderbook_def Let_def pb pa pb' pa' split: sum.split)
  have s1: "check_alerts_list (cfg\<lparr>spread_alert_threshold := Some 0\<rparr>) d
       = check_alerts_list (cfg\<lparr>spread_alert_threshold := None\<rparr>) d"
    by (simp add: check_alerts_list_def)
  have s2: "\<forall>p t. High_spread p t \<notin> set (check_alerts_list (cfg\<lparr>spread_alert_threshold := Some 0\<rparr>) d)"
    by (simp add: check_alerts_list_def Let_def split: option.split)
  have v1: "check_alerts_list (cfg\<lparr>volume_alert_threshold := Some 0\<rparr>) d
       = check_alerts_list (cfg\<lparr>volume_alert_threshold := None\<rparr>) d"
    by (simp add: check_alerts_list_def)
  have v2: "\<forall>v t. Low_volume v t \<notin> set (check_alerts_list (cfg\<lparr>volume_alert_threshold := Some 0\<rparr>) d)"
    by (simp add: check_alerts_list_def Let_def split: option.split)
  from po pb pa s1 s2 v1 v2 show ?thesis by blast
qed


subsection \<open>Alerts (C7)\<close>

text \<open>
  C7, as stated, lets the high-spread alert fire whenever the spread percentage exceeds a
  configured threshold. A threshold configured to 0 is false under the script's truth test:
  the reduced one-level book has spread percentage 50 and no alert is produced.
\<close>

theorem alert_thresholds_counterexample:
  "spread_alert_threshold zero_threshold_config = Some 0
   \<and> volume_alert_threshold zero_threshold_config = Some 4
   \<and> process_orderbook zero_threshold_config 0 0 dyadic_bids dyadic_asks = Inr dyadic_data
   \<and> 0 < spread_percent dyadic_data
   \<and> check_alerts_list zero_threshold_config dyadic_data = []"
  by code_simp

text \<open>
  C7, amended: for every reduced snapshot and every configuration, whether one, both or
  none of the thresholds are configured, a high-spread alert is produced exactly when the
  spread threshold is configured to a value other than zero and the spread percentage is
  strictly greater than it; a low-volume alert exactly when the volume threshold is
  configured to a value other than zero and the floating-point sum of the two total volumes
  is strictly below it; each alert carries the observed value and the threshold; there is
  at most one alert of each kind, and the high-spread alert precedes the low-volume alert.
  A threshold configured to zero never fires.
\<close>

theorem alerts_strict_and_ordered:
  "(High_spread p t \<in> set (check_alerts_list cfg d) \<longleftrightarrow>
      spread_alert_threshold cfg = Some t \<and> t \<noteq> 0 \<and> t < spread_percent d
      \<and> p = spread_percent d)
   \<and> (Low_volume v u \<in> set (check_alerts_list cfg d) \<longleftrightarrow>
      volume_alert_threshold cfg = Some u \<and> u \<noteq> 0
      \<and> v = float_add (total_bid_volume d) (total_ask_volume d) \<and> v < u)
   \<and> check_alerts_list cfg d
       = filter is_high_spread (check_alerts_list cfg d)
         @ filter is_low_volume (check_alerts_list cfg d)
   \<and> length (filter is_high_spread (check_alerts_list cfg d)) \<le> 1
   \<and> length (filter is_low_volume (check_alerts_list cfg d)) \<le> 1"
proof -
  have h: "High_spread p t \<in> set (check_alerts_list cfg d) \<longleftrightarrow>
      spread_alert_threshold cfg = Some t \<and> t \<noteq> 0 \<and> t < spread_percent d
      \<and> p = spread_percent d"
    by (auto simp add: check_alerts_list_def Let_def split: option.splits if_splits)
  have l: "Low_volume v u \<in> set (check_alerts_list cfg d) \<longleftrightarrow>
      volume_alert_threshold cfg = Some u \<and> u \<noteq> 0
      \<and> v = float_add (total_bid_volume d) (total_ask_volume d) \<and> v < u"
    by (auto simp add: check_alerts_list_def Let_def split: option.splits if_splits)
  have o: "check_alerts_list cfg d
       = filter is_high_spread (check_alerts_list cfg d)
         @ filter is_low_volume (check_alerts_list cfg d)"
    by (simp add: check_alerts_list_def Let_def split: option.split)
  have n1: "length (filter is_high_spread (check_alerts_list cfg d)) \<le> 1"
    by (simp add: check_alerts_list_def Let_def split: option.split)
  have n2: "length (filter is_low_volume (check_alerts_list cfg d)) \<le> 1"
    by (simp add: check_alerts_list_def Let_def split: option.split)
  from h l o n1 n2 show ?thesis by blast
qed

theorem alerts_strict_and_ordered_witness:
  "process_orderbook alerting_config 0 0 dyadic_bids dyadic_asks = Inr dyadic_data
   \<and> High_spread 50 25 \<in> set (check_alerts_list alerting_config dyadic_data)
   \<and> Low_volume 5 8 \<in> set (check_alerts_list alerting_config dyadic_data)
   \<and> check_alerts_list alerting_config dyadic_data = [High_spread 50 25, Low_volume 5 8]
   \<and> High_spread 50 50 \<notin> set (check_alerts_list boundary_config dyadic_data)
   \<and> Low_volume 5 5 \<notin> set (check_alerts_list boundary_config dyadic_data)
   \<and> High_spread 50 25 \<in> set (check_alerts_list spread_only_config dyadic_data)
   \<and> Low_volume 5 8 \<notin> set (check_alerts_list spread_only_config dyadic_data)"
proof -
  have p: "process_orderbook alerting_config 0 0 dyadic_bids dyadic_asks = Inr dyadic_data"
    by code_simp
  have v: "spread_percent dyadic_data = 50"
    "float_add (total_bid_volume dyadic_data) (total_ask_volume dyadic_data) = 5"
    by code_simp+
  have a: "spread_alert_threshold alerting_config = Some 25"
    "volume_alert_threshold alerting_config = Some 8"
    by code_simp+
  have b: "spread_alert_threshold boundary_config = Some 50"
    "volume_alert_threshold boundary_config = Some 5"
    by code_simp+
  have c: "spread_alert_threshold spread_only_config = Some 25"
    "volume_alert_threshold spread_only_config = None"
    by code_simp+
  have w1: "High_spread 50 25 \<in> set (check_alerts_list alerting_config dyadic_data)"
    using alerts_strict_and_ordered [of 50 25 alerting_config dyadic_data] v a by simp
  have w2: "Low_volume 5 8 \<in> set (check_alerts_list alerting_config dyadic_data)"
    using alerts_strict_and_ordered [of _ _ alerting_config dyadic_data 5 8] v a by simp
  have w3: "check_alerts_list alerting_config dyadic_data = [High_spread 50 25, Low_volume 5 8]"
    by code_simp
  have w4: "High_spread 50 50 \<notin> set (check_alerts_list boundary_config dyadic_data)"
    using alerts_strict_and_ordered [of 50 50 boundary_config dyadic_data] v b by simp
  have w5: "Low_volume 5 5 \<notin> set (check_alerts_list boundary_config dyadic_data)"
    using alerts_strict_and_ordered [of _ _ boundary_config dyadic_data 5 5] v b by simp
  have w6: "High_spread 50 25 \<in> set (check_alerts_list spread_only_config dyadic_data)"
    using alerts_strict_and_ordered [of 50 25 spread_only_config dyadic_data] v c by simp
  have w7: "Low_volume 5 8 \<notin> set (check_alerts_list spread_only_config dyadic_data)"
    using alerts_strict_and_ordered [of _ _ spread_only_config dyadic_data 5 8] v c by simp
  from p w1 w2 w3 w4 w5 w6 w7 show ?thesis by blast
qed

subsection \<open>Classifying the connector (C4)\<close>

lemma starts_with_iff: "starts_with k s \<longleftrightarrow> (\<exists>t. s = k @ t)"
proof
  assume "starts_with k s"
  then have "s = k @ drop (length k) s"
    by (metis append_take_drop_id starts_with_def)
  then show "\<exists>t. s = k @ t" ..
next
  assume "\<exists>t. s = k @ t"
  then show "starts_with k s" by (auto simp add: starts_with_def)
qed

lemma py_in_iff: "py_in k s \<longleftrightarrow> (\<exists>p t. s = p @ k @ t)"
proof (induction s)
  case Nil
  show ?case by simp
next
  case (Cons c cs)
  show ?case
  proof
    assume "py_in k (c # cs)"
    then consider "starts_with k (c # cs)" | "py_in k cs" by auto
    then show "\<exists>p t. c # cs = p @ k @ t"
    proof cases
      case 1
      then obtain t where "c # cs = k @ t" using starts_with_iff by blast
      then have "c # cs = [] @ k @ t" by simp
      then show ?thesis by blast
    next
      case 2
      then obtain p t where "cs = p @ k @ t" using Cons.IH by blast
      then have "c # cs = (c # p) @ k @ t" by simp
      then show ?thesis by blast
    qed
  next
    assume "\<exists>p t. c # cs = p @ k @ t"
    then obtain p t where pt: "c # cs = p @ k @ t" by blast
    show "py_in k (c # cs)"
    proof (cases p)
      case Nil
      with pt have "starts_with k (c # cs)" using starts_with_iff by auto
      then show ?thesis by simp
    next
      case (Cons a p')
      with pt have "cs = p' @ k @ t" by simp
      then have "py_in k cs" using Cons.IH by blast
      then show ?thesis by simp
    qed
  qed
qed

lemma detect_loop_iff:
  "detect_loop ks s = (if \<exists>k\<in>set ks. py_in k s then ''perpetual'' else ''spot'')"
  by (induction ks) auto

text \<open>
  What the method does in each case: a connector type that is true (a non-empty string)
  stops it at once; only \<^verbatim>\<open>None\<close> and the empty string reach the keyword loop, which
  matches on the lower-cased connector name.
\<close>

lemma detect_connector_type_cases:
  "(\<forall>c. connector_type cfg = Some c \<and> c \<noteq> [] \<longrightarrow> detect_connector_type cfg = cfg)
   \<and> (connector_type cfg = None \<or> connector_type cfg = Some [] \<longrightarrow>
        detect_connector_type cfg =
          cfg\<lparr>connector_type :=
                Some (if \<exists>k\<in>set perpetual_keywords. \<exists>p t. py_lower (connector cfg) = p @ k @ t
                      then ''perpetual'' else ''spot'')\<rparr>)
   \<and> (\<forall>cfg'. connector_type cfg' = connector_type cfg
               \<and> py_lower (connector cfg') = py_lower (connector cfg) \<longrightarrow>
          connector_type (detect_connector_type cfg') = connector_type (detect_connector_type cfg))"
proof -
  have a: "\<forall>c. connector_type cfg = Some c \<and> c \<noteq> [] \<longrightarrow> detect_connector_type cfg = cfg"
    by (simp add: detect_connector_type_def)
  have b: "connector_type cfg = None \<or> connector_type cfg = Some [] \<longrightarrow>
        detect_connector_type cfg =
          cfg\<lparr>connector_type :=
                Some (if \<exists>k\<in>set perpetual_keywords. \<exists>p t. py_lower (connector cfg) = p @ k @ t
                      then ''perpetual'' else ''spot'')\<rparr>"
    by (auto simp add: detect_connector_type_def detect_loop_iff py_in_iff)
  have c: "\<forall>cfg'. connector_type cfg' = connector_type cfg
               \<and> py_lower (connector cfg') = py_lower (connector cfg) \<longrightarrow>
          connector_type (detect_connector_type cfg') = connector_type (detect_connector_type cfg)"
    by (simp add: detect_connector_type_def Let_def)
  from a b c show ?thesis by blast
qed

text \<open>
  C4 states that the configured type is returned when one is provided and that otherwise
  the connector name is matched against the keywords. The class attribute
  \<^verbatim>\<open>connector_type\<close> defaults to \<^verbatim>\<open>"spot"\<close>, a true value, so a configuration for which
  no type was given counts as one with a type: for the connector \<^verbatim>\<open>binance_perpetual\<close>
  the keyword loop would answer \<^verbatim>\<open>perpetual\<close>, but the method returns before it and the
  constructed monitor is a spot monitor.
\<close>

theorem default_type_blocks_detection:
  "connector_type perpetual_venue_config = Some ''spot''
   \<and> detect_loop perpetual_keywords (py_lower (connector perpetual_venue_config)) = ''perpetual''
   \<and> detect_connector_type perpetual_venue_config = perpetual_venue_config
   \<and> connector_type (config (init_monitor perpetual_venue_config)) = Some ''spot''"
  by code_simp

subsection \<open>Failures inside a tick (C8)\<close>

lemma emit_fields [simp]:
  "is_running (emit l m) = is_running m"
  "config (emit l m) = config m"
  "update_count (emit l m) = update_count m"
  "orderbook_history (emit l m) = orderbook_history m"
  "logged (emit l m) = logged m @ [l]"
  by (simp_all add: emit_def)

lemma display_fields [simp]:
  "is_running (display d m) = is_running m"
  "config (display d m) = config m"
  "update_count (display d m) = update_count m"
  "orderbook_history (display d m) = orderbook_history m"
  by (simp_all add: display_def display_json_format_def display_csv_format_def
      display_table_format_def)

lemma check_alerts_fields [simp]:
  "is_running (check_alerts d m) = is_running m"
  "config (check_alerts d m) = config m"
  "update_count (check_alerts d m) = update_count m"
  "orderbook_history (check_alerts d m) = orderbook_history m"
  by (simp_all add: check_alerts_def)

lemma fetch_keeps_running:
  "is_running (snd (fetch_and_display_orderbook e m)) = is_running m"
  by (simp add: fetch_and_display_orderbook_def Let_def
      split: option.split book_reply.split sum.split)

lemma fetch_keeps_config:
  "config (snd (fetch_and_display_orderbook e m)) = config m"
  by (simp add: fetch_and_display_orderbook_def Let_def
      split: option.split book_reply.split sum.split)

lemma on_tick_returns: "fst (on_tick e m) = None"
  by (simp add: on_tick_def split: prod.split option.split)

lemma on_tick_keeps_running: "is_running (snd (on_tick e m)) = is_running m"
proof (cases "fetch_and_display_orderbook e m")
  case (Pair r m')
  then have "is_running m' = is_running m"
    using fetch_keeps_running [of e m] by simp
  with Pair show ?thesis
    by (simp add: on_tick_def split: option.split)
qed

lemma on_tick_keeps_config: "config (snd (on_tick e m)) = config m"
proof (cases "fetch_and_display_orderbook e m")
  case (Pair r m')
  then have "config m' = config m"
    using fetch_keeps_config [of e m] by simp
  with Pair show ?thesis
    by (simp add: on_tick_def split: option.split)
qed

lemma on_tick_logs_failure:
  assumes "is_running m" and "fst (fetch_and_display_orderbook e m) = Some x"
  shows "logged (snd (on_tick e m))
           = logged (snd (fetch_and_display_orderbook e m)) @ [Error_in_fetch x]"
  using assms by (cases "fetch_and_display_orderbook e m") (simp add: on_tick_def)

lemma run_ticks_returns: "fst (run_ticks es m) = None"
proof (induction es arbitrary: m)
  case Nil
  show ?case by simp
next
  case (Cons e es)
  obtain m' where "on_tick e m = (None, m')"
    using on_tick_returns [of e m] by (cases "on_tick e m") simp
  with Cons.IH show ?case by simp
qed

lemma run_ticks_keeps_running: "is_running (snd (run_ticks es m)) = is_running m"
proof (induction es arbitrary: m)
  case Nil
  show ?case by simp
next
  case (Cons e es)
  obtain m' where m': "on_tick e m = (None, m')"
    using on_tick_returns [of e m] by (cases "on_tick e m") simp
  then have "is_running m' = is_running m"
    using on_tick_keeps_running [of e m] by simp
  with Cons.IH [of m'] m' show ?case by simp
qed

lemma fetch_healthy:
  assumes "healthy e (config m)"
  shows "\<exists>d. data_update_count d = update_count m
     \<and> fetch_and_display_orderbook e m =
         (None, (check_alerts d (display d m))
                  \<lparr>update_count := update_count m + 1,
                   last_update_time := Some (clock e),
                   orderbook_history := store_history (orderbook_history m) d\<rparr>)"
proof -
  from assms obtain conn raw_bids raw_asks where c: "get_connector e (config m) = Some conn"
      "conn (trading_pair (config m)) = Book raw_bids raw_asks"
      "fault e Process = None" "fault e Display = None" "fault e Alerts = None"
    by (auto simp add: healthy_def split: option.splits book_reply.splits)
  obtain d where d: "process_orderbook (config m) (clock e) (update_count m) raw_bids raw_asks = Inr d"
      "data_update_count d = update_count m"
    using process_orderbook_Inr [of "config m" "clock e" "update_count m" raw_bids raw_asks]
    by blast
  have "fetch_and_display_orderbook e m =
         (None, (check_alerts d (display d m))
                  \<lparr>update_count := update_count m + 1,
                   last_update_time := Some (clock e),
                   orderbook_history := store_history (orderbook_history m) d\<rparr>)"
    by (simp add: fetch_and_display_orderbook_def c d(1) Let_def)
  with d(2) show ?thesis by blast
qed

lemma on_tick_healthy:
  assumes "is_running m" and "healthy e (config m)"
  shows "\<exists>d m'. on_tick e m = (None, m')
     \<and> data_update_count d = update_count m
     \<and> is_running m'
     \<and> config m' = config m
     \<and> update_count m' = update_count m + 1
     \<and> orderbook_history m' = store_history (orderbook_history m) d"
proof -
  from fetch_healthy [OF assms(2)] obtain d where d: "data_update_count d = update_count m"
    "fetch_and_display_orderbook e m =
         (None, (check_alerts d (display d m))
                  \<lparr>update_count := update_count m + 1,
                   last_update_time := Some (clock e),
                   orderbook_history := store_history (orderbook_history m) d\<rparr>)"
    by blast
  let ?m' = "(check_alerts d (display d m))
                  \<lparr>update_count := update_count m + 1,
                   last_update_time := Some (clock e),
                   orderbook_history := store_history (orderbook_history m) d\<rparr>"
  have "on_tick e m = (None, ?m')"
    using assms(1) d(2) by (simp add: on_tick_def)
  moreover have "is_running ?m'" using assms(1) by simp
  moreover have "config ?m' = config m" by simp
  moreover have "update_count ?m' = update_count m + 1" by simp
  moreover have "orderbook_history ?m' = store_history (orderbook_history m) d" by simp
  ultimately show ?thesis using d(1) by blast
qed

text \<open>
  C8: \<^verbatim>\<open>on_tick\<close> never lets an exception out and never changes \<^verbatim>\<open>is_running\<close>; an
  exception that leaves \<^verbatim>\<open>fetch_and_display_orderbook\<close> is logged as an error after what
  the tick had logged; the same holds over any sequence of ticks; and after any tick, failed
  or not, a tick that meets its connector and a book is processed and counted.
\<close>

theorem on_tick_contains_failures:
  "fst (on_tick e m) = None
   \<and> is_running (snd (on_tick e m)) = is_running m
   \<and> (\<forall>x. is_running m \<and> fst (fetch_and_display_orderbook e m) = Some x \<longrightarrow>
         logged (snd (on_tick e m))
           = logged (snd (fetch_and_display_orderbook e m)) @ [Error_in_fetch x])
   \<and> fst (run_ticks es m) = None
   \<and> is_running (snd (run_ticks es m)) = is_running m
   \<and> (is_running m \<and> healthy e' (config m) \<longrightarrow>
         update_count (snd (on_tick e' (snd (on_tick e m))))
           = update_count (snd (on_tick e m)) + 1)"
proof -
  have nxt: "is_running m \<and> healthy e' (config m) \<longrightarrow>
         update_count (snd (on_tick e' (snd (on_tick e m))))
           = update_count (snd (on_tick e m)) + 1"
  proof
    assume a: "is_running m \<and> healthy e' (config m)"
    let ?m1 = "snd (on_tick e m)"
    have "is_running ?m1" using a by (simp add: on_tick_keeps_running)
    moreover have "healthy e' (config ?m1)" using a by (simp add: on_tick_keeps_config)
    ultimately obtain d m' where "on_tick e' ?m1 = (None, m')"
        "update_count m' = update_count ?m1 + 1"
      using on_tick_healthy [of ?m1 e'] by blast
    then show "update_count (snd (on_tick e' ?m1)) = update_count ?m1 + 1" by simp
  qed
  from on_tick_returns [of e m] on_tick_keeps_running [of e m] on_tick_logs_failure [of m e]
    run_ticks_returns [of es m] run_ticks_keeps_running [of es m] nxt
  show ?thesis by blast
qed

theorem on_tick_contains_failures_witness:
  "is_running (init_monitor scenario_config)
   \<and> fst (fetch_and_display_orderbook failing_display_env (init_monitor scenario_config))
       = Some (Raised ''display'')
   \<and> healthy steady_env (config (init_monitor scenario_config))
   \<and> fst (on_tick failing_display_env (init_monitor scenario_config)) = None
   \<and> logged (snd (on_tick failing_display_env (init_monitor scenario_config)))
       = [Error_in_fetch (Raised ''display'')]
   \<and> update_count (snd (on_tick steady_env
        (snd (on_tick failing_display_env (init_monitor scenario_config))))) = 1"
proof -
  have h1: "is_running (init_monitor scenario_config)" by code_simp
  have h2: "fst (fetch_and_display_orderbook failing_display_env (init_monitor scenario_config))
       = Some (Raised ''display'')" by code_simp
  have h3: "healthy steady_env (config (init_monitor scenario_config))" by code_simp
  have l0: "logged (snd (fetch_and_display_orderbook failing_display_env (init_monitor scenario_config))) = []"
    by code_simp
  have u0: "update_count (snd (on_tick failing_display_env (init_monitor scenario_config))) = 0"
    by code_simp
  from on_tick_contains_failures
    [of failing_display_env "init_monitor scenario_config" "[]" steady_env] h1 h2 h3 l0 u0
  show ?thesis by simp
qed

subsection \<open>The history (C2)\<close>

lemma store_history_append:
  "length h \<le> 100 \<Longrightarrow> store_history h d = h @ [d]"
  by (simp add: store_history_def)

lemma run_ticks_healthy:
  assumes "is_running m"
    and "\<forall>e\<in>set es. healthy e (config m)"
    and "length (orderbook_history m) + length es \<le> 101"
  shows "map data_update_count (orderbook_history (snd (run_ticks es m)))
           = map data_update_count (orderbook_history m)
             @ [update_count m ..< update_count m + length es]"
  using assms
proof (induction es arbitrary: m)
  case Nil
  show ?case by simp
next
  case (Cons e es)
  have "healthy e (config m)" using Cons.prems(2) by simp
  with Cons.prems(1) obtain d m' where s: "on_tick e m = (None, m')"
      "data_update_count d = update_count m" "is_running m'" "config m' = config m"
      "update_count m' = update_count m + 1"
      "orderbook_history m' = store_history (orderbook_history m) d"
    using on_tick_healthy [of m e] by blast
  have "length (orderbook_history m) \<le> 100" using Cons.prems(3) by simp
  then have h: "orderbook_history m' = orderbook_history m @ [d]"
    using s(6) by (simp add: store_history_append)
  have "\<forall>e\<in>set es. healthy e (config m')" using Cons.prems(2) s(4) by simp
  moreover have "length (orderbook_history m') + length es \<le> 101"
    using Cons.prems(3) h by simp
  ultimately have "map data_update_count (orderbook_history (snd (run_ticks es m')))
           = map data_update_count (orderbook_history m')
             @ [update_count m' ..< update_count m' + length es]"
    using Cons.IH [of m'] s(3) by blast
  then have "map data_update_count (orderbook_history (snd (run_ticks (e # es) m)))
           = map data_update_count (orderbook_history m)
             @ update_count m # [update_count m + 1 ..< update_count m + 1 + length es]"
    using s(1) s(2) s(5) h by simp
  also have "update_count m # [update_count m + 1 ..< update_count m + 1 + length es]
      = [update_count m ..< update_count m + length (e # es)]"
    using upt_conv_Cons [of "update_count m" "update_count m + length (e # es)"] by simp
  finally show ?case .
qed

text \<open>
  C2 states that the history never holds more than 100 entries and that after 101 appends
  the oldest entry is the second one appended. The script removes the oldest entry only when
  the length already exceeds 100: after 101 processed ticks of a fresh monitor the history
  holds 101 entries and the oldest is still the first one (update count 0).
\<close>

theorem history_holds_101_entries:
  "fst (run_ticks (replicate 101 steady_env) (init_monitor scenario_config)) = None
   \<and> length (orderbook_history
        (snd (run_ticks (replicate 101 steady_env) (init_monitor scenario_config)))) = 101
   \<and> data_update_count (hd (orderbook_history
        (snd (run_ticks (replicate 101 steady_env) (init_monitor scenario_config))))) = 0"
proof -
  let ?m0 = "init_monitor scenario_config"
  let ?h = "orderbook_history (snd (run_ticks (replicate 101 steady_env) ?m0))"
  have r: "is_running ?m0" by code_simp
  have u: "update_count ?m0 = 0" "orderbook_history ?m0 = []" by code_simp+
  have "healthy steady_env (config ?m0)" by code_simp
  then have hl: "\<forall>e\<in>set (replicate 101 steady_env). healthy e (config ?m0)" by simp
  have "length (orderbook_history ?m0) + length (replicate 101 steady_env) \<le> 101"
    using u(2) by simp
  with r hl have "map data_update_count ?h
      = map data_update_count (orderbook_history ?m0)
        @ [update_count ?m0 ..< update_count ?m0 + length (replicate 101 steady_env)]"
    by (rule run_ticks_healthy)
  then have m: "map data_update_count ?h = [0 ..< 101]" using u by simp
  then have "length (map data_update_count ?h) = 101" by simp
  then have len: "length ?h = 101" by simp
  then have "?h \<noteq> []" by auto
  then have "data_update_count (hd ?h) = hd (map data_update_count ?h)"
    by (simp add: hd_map)
  also have "\<dots> = 0" using m by (simp add: upt_conv_Cons)
  finally have first: "data_update_count (hd ?h) = 0" .
  from run_ticks_returns [of "replicate 101 steady_env" ?m0] len first
  show ?thesis by blast
qed

subsection \<open>The CSV header (C3)\<close>

text \<open>
  C3 states that the CSV header is written on the first cycle, before the first data row.
  The script writes it when \<^verbatim>\<open>update_count\<close> is 1, and the counter is incremented after
  the display: a run of one cycle logs the data row alone, and a run of three cycles logs the
  header once, between the first and the second data row.
\<close>

theorem csv_header_on_second_cycle:
  "logged (snd (run_ticks [steady_env] (init_monitor csv_config))) = [Csv_row scenario_data]
   \<and> logged (snd (run_ticks [steady_env, steady_env, steady_env] (init_monitor csv_config)))
       = [Csv_row scenario_data,
          Csv_header,
          Csv_row (scenario_data\<lparr>data_update_count := 1\<rparr>),
          Csv_row (scenario_data\<lparr>data_update_count := 2\<rparr>)]"
  by code_simp

end
